theory Spec2Isabelle
  imports Main
begin

section \<open>Python values used by \<^verbatim>\<open>main.py\<close>\<close>

text \<open>
  A Python \<^verbatim>\<open>str\<close> is modelled as a \<^typ>\<open>string\<close>; one \<^typ>\<open>char\<close> stands for one
  unit of the Python string (the unit that \<^verbatim>\<open>len\<close> and slicing count), restricted to the
  code points below 256.

  A key of a JSON object is absent, present with the value \<^verbatim>\<open>null\<close>, or present with a
  value of the expected type.
\<close>

datatype 'a field = Absent | Null | Value 'a

text \<open>
  The exceptions that the modelled code can raise, each with the text that
  \<^verbatim>\<open>str(e)\<close> yields. \<open>APIError\<close> stands for whatever
  \<^verbatim>\<open>client.chat.completions.create\<close> raises.
\<close>

datatype exn_class = AttributeError | TypeError | IndexError | EOFError | ValueError | APIError

datatype exn = Raise exn_class string

fun str_exn :: "exn \<Rightarrow> string" where
  "str_exn (Raise k msg) = msg"

definition none_has_no_get :: exn where
  "none_has_no_get = Raise AttributeError ([CHR 0x27] @ ''NoneType' object has no attribute 'get'' @ [CHR 0x27])"

definition none_not_subscriptable :: exn where
  "none_not_subscriptable = Raise TypeError ([CHR 0x27] @ ''NoneType' object is not subscriptable'')"

definition list_index_out_of_range :: exn where
  "list_index_out_of_range = Raise IndexError ''list index out of range''"

definition eof_when_reading :: exn where
  "eof_when_reading = Raise EOFError ''EOF when reading a line''"

text \<open>
  A value of type \<^verbatim>\<open>Optional[str]\<close>, and its rendering inside an f-string and by
  \<^verbatim>\<open>print\<close>: \<^verbatim>\<open>None\<close> is rendered as the four characters \<^verbatim>\<open>None\<close>.
\<close>

type_synonym content = "string option"

fun py_format :: "content \<Rightarrow> string" where
  "py_format None = ''None''"
| "py_format (Some s) = s"

text \<open>\<^verbatim>\<open>str.strip()\<close> and \<^verbatim>\<open>str.lower()\<close> on code points below 256.\<close>

definition isspace :: "char \<Rightarrow> bool" where
  "isspace c = (let n = (of_char c :: nat) in
     (9 \<le> n \<and> n \<le> 13) \<or> (28 \<le> n \<and> n \<le> 32) \<or> n = 133 \<or> n = 160)"

definition strip :: "string \<Rightarrow> string" where
  "strip s = rev (dropWhile isspace (rev (dropWhile isspace s)))"

definition lower_char :: "char \<Rightarrow> char" where
  "lower_char c = (let n = (of_char c :: nat) in
     if (65 \<le> n \<and> n \<le> 90) \<or> (192 \<le> n \<and> n \<le> 222 \<and> n \<noteq> 215)
     then char_of (n + 32) else c)"

definition lower :: "string \<Rightarrow> string" where
  "lower s = map lower_char s"

text \<open>The slice \<^verbatim>\<open>xs[i:]\<close> for an arbitrary Python integer \<open>i\<close>.\<close>

definition slice_from :: "int \<Rightarrow> 'a list \<Rightarrow> 'a list" where
  "slice_from i xs =
     (let len = int (length xs);
          start = (if i < 0 then max 0 (len + i) else min i len)
      in drop (nat start) xs)"

section \<open>Data model\<close>

text \<open>
  A comment as the issue tracker returns it: the keys \<^verbatim>\<open>user\<close> (an object with the key
  \<^verbatim>\<open>login\<close>) and \<^verbatim>\<open>body\<close>. An entry of \<^verbatim>\<open>issues_data\<close> is built at line 345 as
  \<^verbatim>\<open>{'title': issue['title'], 'comments': comments}\<close>, so both of its keys are present.
\<close>

record user_obj =
  login :: "string field"

record comment =
  user :: "user_obj field"
  body :: "string field"

record issue =
  title :: string
  comments :: "comment list"

section \<open>Observable effects and the remote services\<close>

text \<open>
  The trace of a run lists, in order, what the process writes to standard output
  (\<open>Print\<close>; \<open>Prompt\<close> for the prompt of an \<^verbatim>\<open>input\<close> call), the calls of
  \<^verbatim>\<open>client.chat.completions.create\<close> (model, system content, user content) and the
  calls of \<^verbatim>\<open>requests.post\<close> (URL and the \<^verbatim>\<open>body\<close> of the JSON payload). Calls of
  \<^verbatim>\<open>logger\<close> are left out of the trace.
\<close>

datatype event =
    Print string
  | Prompt string
  | Chat_completion string string string
  | Post string content

datatype http_result = Http_ok | Http_error string

text \<open>
  The two remote services. Each answer may depend on everything that happened before the
  call (the trace so far) and on the request. The completion endpoint either raises or
  returns the list \<^verbatim>\<open>response.choices\<close>, given by the \<^verbatim>\<open>message.content\<close> of each
  choice. \<open>Http_error\<close> is a \<^verbatim>\<open>RequestException\<close> raised by \<^verbatim>\<open>requests.post\<close> or by
  \<^verbatim>\<open>raise_for_status\<close>, with its message.
\<close>

record env =
  chat_completions_create :: "event list \<Rightarrow> string \<Rightarrow> string \<Rightarrow> string \<Rightarrow> exn + content list"
  requests_post :: "event list \<Rightarrow> string \<Rightarrow> content \<Rightarrow> http_result"

definition MODEL_NAME :: string where
  "MODEL_NAME = ''gpt-3.5-turbo''"

section \<open>\<^verbatim>\<open>fetch_recent_comments\<close>\<close>

text \<open>
  The outcome of \<^verbatim>\<open>requests.get\<close>, \<^verbatim>\<open>raise_for_status\<close> and \<^verbatim>\<open>resp.json()\<close> at lines
  160 to 162: a \<^verbatim>\<open>RequestException\<close> with its message, a JSON value that is not a list
  (with the rendering of its type), or a list.
\<close>

datatype 'a http_json = Request_failed string | Not_a_list string | Json_list "'a list"

definition fetch_recent_comments :: "'a http_json \<Rightarrow> int \<Rightarrow> (exn + 'a list) \<times> event list" where
  "fetch_recent_comments resp n =
     (case resp of
        Request_failed msg \<Rightarrow> (Inr [], [Print (''Error fetching comments: '' @ msg)])
      | Not_a_list ty \<Rightarrow>
          (Inl (Raise ValueError (''Expected list response for comments, got: '' @ ty)), [])
      | Json_list cs \<Rightarrow>
          (Inr (if n \<le> int (length cs) then slice_from (- n) cs else cs), []))"

section \<open>\<^verbatim>\<open>assemble_summary\<close>: the context\<close>

text \<open>
  Line 196, \<^verbatim>\<open>c.get('user', {}).get('login', 'unknown')\<close>: a \<^verbatim>\<open>null\<close> user is
  \<^verbatim>\<open>None\<close>, which has no \<^verbatim>\<open>get\<close>; a \<^verbatim>\<open>null\<close> login is returned as \<^verbatim>\<open>None\<close>.
\<close>

definition get_login :: "comment \<Rightarrow> exn + content" where
  "get_login c =
     (case user c of
        Absent \<Rightarrow> Inr (Some ''unknown'')
      | Null \<Rightarrow> Inl none_has_no_get
      | Value u \<Rightarrow>
          (case login u of
             Absent \<Rightarrow> Inr (Some ''unknown'')
           | Null \<Rightarrow> Inr None
           | Value s \<Rightarrow> Inr (Some s)))"

text \<open>Line 197, \<^verbatim>\<open>c.get('body', '')[:200]\<close>: \<^verbatim>\<open>None\<close> cannot be sliced.\<close>

definition get_body :: "comment \<Rightarrow> exn + string" where
  "get_body c =
     (case body c of
        Absent \<Rightarrow> Inr (take 200 '''')
      | Null \<Rightarrow> Inl none_not_subscriptable
      | Value s \<Rightarrow> Inr (take 200 s))"

text \<open>The inner loop, lines 194 to 198, with the string \<^verbatim>\<open>context\<close> as accumulator.\<close>

fun comment_loop :: "string \<Rightarrow> comment list \<Rightarrow> exn + string" where
  "comment_loop context [] = Inr context"
| "comment_loop context (c # cs) =
     (case get_login c of
        Inl e \<Rightarrow> Inl e
      | Inr usr \<Rightarrow>
          (case get_body c of
             Inl e \<Rightarrow> Inl e
           | Inr b \<Rightarrow>
               comment_loop (context @ ''- '' @ py_format usr @ '': '' @ b @ ''\<newline>'') cs))"

text \<open>The outer loop, lines 192 to 199.\<close>

fun issue_loop :: "string \<Rightarrow> issue list \<Rightarrow> exn + string" where
  "issue_loop context [] = Inr context"
| "issue_loop context (i # rest) =
     (case comment_loop (context @ ''Issue: '' @ title i @ ''\<newline>'') (comments i) of
        Inl e \<Rightarrow> Inl e
      | Inr context' \<Rightarrow> issue_loop (context' @ ''\<newline>'') rest)"

definition build_context :: "issue list \<Rightarrow> exn + string" where
  "build_context issues_data = issue_loop '''' issues_data"

text \<open>
  Lines 189 to 216. \<^verbatim>\<open>sys.exit(1)\<close> is the value \<open>Inl (SystemExit 1)\<close>. The handler at
  line 213 catches every \<^verbatim>\<open>Exception\<close> raised while the context is built, by the
  completion call, or by \<^verbatim>\<open>response.choices[0]\<close> on an empty list of choices.
\<close>

datatype sys_exit = SystemExit int

definition summary_failed :: "event list \<Rightarrow> exn \<Rightarrow> (sys_exit + content) \<times> event list" where
  "summary_failed tr e =
     (Inl (SystemExit 1), tr @ [Print (''Error: Failed to generate summary: '' @ str_exn e)])"

definition assemble_summary ::
  "env \<Rightarrow> event list \<Rightarrow> issue list \<Rightarrow> string \<Rightarrow> (sys_exit + content) \<times> event list" where
  "assemble_summary env tr issues_data instructions =
     (case build_context issues_data of
        Inl e \<Rightarrow> summary_failed tr e
      | Inr context \<Rightarrow>
          (let tr' = tr @ [Chat_completion MODEL_NAME instructions context] in
           case chat_completions_create env tr MODEL_NAME instructions context of
             Inl e \<Rightarrow> summary_failed tr' e
           | Inr choices \<Rightarrow>
               (case choices of
                  [] \<Rightarrow> summary_failed tr' list_index_out_of_range
                | c # _ \<Rightarrow> (Inr c, tr'))))"

section \<open>\<^verbatim>\<open>post_summary\<close>\<close>

definition post_summary :: "env \<Rightarrow> event list \<Rightarrow> string \<Rightarrow> content \<Rightarrow> bool \<times> event list" where
  "post_summary env tr issue_url summary =
     (let comments_url = issue_url @ ''/comments'';
          tr' = tr @ [Post comments_url summary]
      in case requests_post env tr comments_url summary of
           Http_ok \<Rightarrow> (True, tr' @ [Print ''Summary posted to issue.''])
         | Http_error msg \<Rightarrow> (False, tr' @ [Print (''Error: Failed to post summary: '' @ msg)]))"

section \<open>\<^verbatim>\<open>review_and_post_summary\<close>\<close>

text \<open>
  The function blocks at its three calls of \<^verbatim>\<open>input\<close>: line 260 (\<open>AwaitingDecision\<close>),
  line 268 (\<open>AwaitingInstruction\<close>) and line 287 (\<open>AwaitingRevisedDecision\<close>). A
  configuration is such a program point, or the way the function was left, together with
  the variable \<^verbatim>\<open>summary\<close> and the trace. One step runs the code from one call of
  \<^verbatim>\<open>input\<close>, which receives a line or the end of the input, to the next call or to the
  exit of the function. \<^verbatim>\<open>KeyboardInterrupt\<close> is not modelled.

  The function returns \<^verbatim>\<open>None\<close> on three paths, labelled here: line 264 after a
  successful post (\<open>Published\<close>) or a failed one (\<open>PublishFailed\<close>), line 290
  (\<open>Published\<close>) and line 271 (\<open>Aborted\<close>). \<open>Raised\<close> is an exception that leaves the
  function, \<open>Exited\<close> a \<^verbatim>\<open>sys.exit\<close>.
\<close>

datatype pc = AwaitingDecision | AwaitingInstruction | AwaitingRevisedDecision

datatype terminal = Published | PublishFailed | Aborted | Raised exn | Exited sys_exit

datatype status = Awaiting pc | Terminal terminal

datatype keyboard = Line string | EOF

record config =
  status :: status
  summary :: content
  trace :: "event list"

fun prompt_of :: "pc \<Rightarrow> string" where
  "prompt_of AwaitingDecision = ''Post this summary to the initiative issue? (y/n): ''"
| "prompt_of AwaitingInstruction = ''> ''"
| "prompt_of AwaitingRevisedDecision =
     ''Post this revised summary to the initiative issue? (y/n): ''"

text \<open>Reaching a call of \<^verbatim>\<open>input\<close> writes its prompt and blocks.\<close>

definition await :: "pc \<Rightarrow> content \<Rightarrow> event list \<Rightarrow> config" where
  "await p s tr = \<lparr>status = Awaiting p, summary = s, trace = tr @ [Prompt (prompt_of p)]\<rparr>"

definition finish :: "terminal \<Rightarrow> content \<Rightarrow> event list \<Rightarrow> config" where
  "finish t s tr = \<lparr>status = Terminal t, summary = s, trace = tr\<rparr>"

text \<open>The user content of a revision request, line 279.\<close>

definition revision_prompt :: "content \<Rightarrow> string \<Rightarrow> string" where
  "revision_prompt s user_instruction =
     ''Here is the current summary:\<newline>'' @ py_format s @
     ''\<newline>\<newline>Please revise it as follows: '' @ user_instruction"

definition more_instructions :: string where
  "more_instructions = ''You can enter more instructions or type 'done' to exit.''"

text \<open>
  The handler of line 292: the error is printed and the inner loop starts its next
  iteration at line 268.
\<close>

definition revision_failed :: "content \<Rightarrow> event list \<Rightarrow> exn \<Rightarrow> config" where
  "revision_failed s tr e =
     await AwaitingInstruction s
       (tr @ [Print (''Error: Failed to revise summary: '' @ str_exn e)])"

text \<open>Line 260 has read its input: lines 261 to 264, 265 to 266 or 297.\<close>

definition on_decision :: "env \<Rightarrow> string \<Rightarrow> content \<Rightarrow> event list \<Rightarrow> keyboard \<Rightarrow> config" where
  "on_decision env initiative_url s tr k =
     (case k of
        EOF \<Rightarrow> finish (Raised eof_when_reading) s tr
      | Line l \<Rightarrow>
          (let confirm = lower (strip l) in
           if confirm = ''y'' then
             (case post_summary env tr initiative_url s of
                (ok, tr') \<Rightarrow> finish (if ok then Published else PublishFailed) s tr')
           else if confirm = ''n'' then
             await AwaitingInstruction s
               (tr @ [Print (''Enter instructions for how to revise the summary, '' @
                             ''or type 'done' to exit:'')])
           else
             await AwaitingDecision s (tr @ [Print ''Please enter 'y' or 'n'.''])))"

text \<open>Line 268 has read its input: lines 269 to 286, with the handler of line 292.\<close>

definition on_instruction ::
  "env \<Rightarrow> string \<Rightarrow> content \<Rightarrow> event list \<Rightarrow> keyboard \<Rightarrow> config" where
  "on_instruction env instructions s tr k =
     (case k of
        EOF \<Rightarrow> finish (Raised eof_when_reading) s tr
      | Line user_instruction \<Rightarrow>
          if lower (strip user_instruction) = ''done'' then
            finish Aborted s (tr @ [Print ''Exiting without posting.''])
          else
            (let user_content = revision_prompt s user_instruction;
                 tr' = tr @ [Chat_completion MODEL_NAME instructions user_content]
             in case chat_completions_create env tr MODEL_NAME instructions user_content of
                  Inl e \<Rightarrow> revision_failed s tr' e
                | Inr choices \<Rightarrow>
                    (case choices of
                       [] \<Rightarrow> revision_failed s tr' list_index_out_of_range
                     | c # _ \<Rightarrow>
                         await AwaitingRevisedDecision c
                           (tr' @ [Print ''\<newline>--- Revised Summary ---\<newline>'',
                                   Print (py_format c),
                                   Print ''\<newline>----------------------\<newline>'']))))"

text \<open>
  Line 287 has read its input: lines 288 to 291. The call of \<^verbatim>\<open>input\<close> is inside the
  \<^verbatim>\<open>try\<close> block, so its \<^verbatim>\<open>EOFError\<close> is caught at line 292.
\<close>

definition on_revised_decision ::
  "env \<Rightarrow> string \<Rightarrow> content \<Rightarrow> event list \<Rightarrow> keyboard \<Rightarrow> config" where
  "on_revised_decision env initiative_url s tr k =
     (case k of
        EOF \<Rightarrow> revision_failed s tr eof_when_reading
      | Line l \<Rightarrow>
          (let confirm2 = lower (strip l) in
           if confirm2 = ''y'' then
             (case post_summary env tr initiative_url s of
                (ok, tr') \<Rightarrow>
                  if ok then finish Published s tr'
                  else await AwaitingInstruction s (tr' @ [Print more_instructions]))
           else await AwaitingInstruction s (tr @ [Print more_instructions])))"

definition step :: "env \<Rightarrow> string \<Rightarrow> string \<Rightarrow> config \<Rightarrow> keyboard \<Rightarrow> config" where
  "step env initiative_url instructions cfg k =
     (case status cfg of
        Terminal t \<Rightarrow> cfg
      | Awaiting AwaitingDecision \<Rightarrow> on_decision env initiative_url (summary cfg) (trace cfg) k
      | Awaiting AwaitingInstruction \<Rightarrow> on_instruction env instructions (summary cfg) (trace cfg) k
      | Awaiting AwaitingRevisedDecision \<Rightarrow>
          on_revised_decision env initiative_url (summary cfg) (trace cfg) k)"

text \<open>The inputs are consumed one by one; what follows the exit of the function is not read.\<close>

fun run :: "env \<Rightarrow> string \<Rightarrow> string \<Rightarrow> config \<Rightarrow> keyboard list \<Rightarrow> config" where
  "run env initiative_url instructions cfg [] = cfg"
| "run env initiative_url instructions cfg (k # ks) =
     run env initiative_url instructions (step env initiative_url instructions cfg k) ks"

definition review_and_post_summary ::
  "env \<Rightarrow> string \<Rightarrow> content \<Rightarrow> string \<Rightarrow> event list \<Rightarrow> keyboard list \<Rightarrow> config" where
  "review_and_post_summary env initiative_url s instructions tr inputs =
     run env initiative_url instructions (await AwaitingDecision s tr) inputs"

section \<open>\<^verbatim>\<open>main\<close>, from the collected issues on\<close>

text \<open>
  Lines 351 to 368, given \<^verbatim>\<open>issues_data\<close>. \<^verbatim>\<open>SystemExit\<close> is not an \<^verbatim>\<open>Exception\<close>, so
  the handler of line 365 lets it pass; an exception that leaves
  \<^verbatim>\<open>review_and_post_summary\<close> is caught there.
\<close>

definition main_from_issues ::
  "env \<Rightarrow> string \<Rightarrow> string \<Rightarrow> issue list \<Rightarrow> keyboard list \<Rightarrow> status \<times> event list" where
  "main_from_issues env initiative_url instructions issues_data inputs =
     (if issues_data = [] then
        (Terminal (Exited (SystemExit 1)),
         [Print ''Could not collect data from any issues. Exiting.''])
      else
        (case assemble_summary env [Print ''Generating summary...''] issues_data instructions of
           (Inl x, tr) \<Rightarrow> (Terminal (Exited x), tr)
         | (Inr s, tr) \<Rightarrow>
             (let cfg = review_and_post_summary env initiative_url s instructions
                          (tr @ [Print ''\<newline>--- Generated Summary ---\<newline>'',
                                 Print (py_format s),
                                 Print ''\<newline>------------------------\<newline>''])
                          inputs
              in case status cfg of
                   Terminal (Raised e) \<Rightarrow>
                     (Terminal (Exited (SystemExit 1)),
                      trace cfg @ [Print (''Error: '' @ str_exn e)])
                 | st \<Rightarrow> (st, trace cfg))))"

section \<open>Reading a trace\<close>

definition completion_calls :: "event list \<Rightarrow> (string \<times> string) list" where
  "completion_calls tr =
     concat (map (\<lambda>e. case e of Chat_completion m sys usr \<Rightarrow> [(sys, usr)] | _ \<Rightarrow> []) tr)"

definition post_calls :: "event list \<Rightarrow> (string \<times> content) list" where
  "post_calls tr = concat (map (\<lambda>e. case e of Post url b \<Rightarrow> [(url, b)] | _ \<Rightarrow> []) tr)"

text \<open>
  Whether every post recorded in a stretch of the trace was refused by the tracker: each
  \<open>Post\<close> is put again to \<^verbatim>\<open>requests.post\<close> with the history it was made in (\<open>h\<close> is the
  trace before the stretch).
\<close>

fun all_posts_refused :: "env \<Rightarrow> event list \<Rightarrow> event list \<Rightarrow> bool" where
  "all_posts_refused env h [] = True"
| "all_posts_refused env h (e # tr) =
     ((case e of Post url b \<Rightarrow> requests_post env h url b \<noteq> Http_ok | _ \<Rightarrow> True) \<and>
      all_posts_refused env (h @ [e]) tr)"

text \<open>
  The last text that was generated in a stretch of the trace: the content of the first
  choice of the latest completion call of the stretch that returned a choice, and \<open>s\<close>
  when no call of the stretch did. Each \<open>Chat_completion\<close> is put again to the endpoint with
  the history it was made in.
\<close>

fun last_generated :: "env \<Rightarrow> event list \<Rightarrow> content \<Rightarrow> event list \<Rightarrow> content" where
  "last_generated env h s [] = s"
| "last_generated env h s (e # tr) =
     last_generated env (h @ [e])
       (case e of
          Chat_completion m sys usr \<Rightarrow>
            (case chat_completions_create env h m sys usr of
               Inl x \<Rightarrow> s
             | Inr choices \<Rightarrow> (case choices of [] \<Rightarrow> s | c # _ \<Rightarrow> c))
        | _ \<Rightarrow> s)
       tr"

section \<open>The context as the specification words it\<close>

text \<open>
  The data model of the specification gives a comment an optional author and a body, both
  strings: a comment conforms to it when none of its fields is \<^verbatim>\<open>null\<close>.
\<close>

definition well_typed_comment :: "comment \<Rightarrow> bool" where
  "well_typed_comment c =
     ((case user c of Absent \<Rightarrow> True | Null \<Rightarrow> False | Value u \<Rightarrow> login u \<noteq> Null) \<and>
      body c \<noteq> Null)"

text \<open>The author of a comment, \<^verbatim>\<open>unknown\<close> when missing; its body, empty when missing.\<close>

definition author_spec :: "comment \<Rightarrow> string" where
  "author_spec c =
     (case user c of
        Value u \<Rightarrow> (case login u of Value a \<Rightarrow> a | _ \<Rightarrow> ''unknown'')
      | _ \<Rightarrow> ''unknown'')"

definition body_spec :: "comment \<Rightarrow> string" where
  "body_spec c = (case body c of Value b \<Rightarrow> b | _ \<Rightarrow> '''')"

definition comment_line_spec :: "comment \<Rightarrow> string" where
  "comment_line_spec c =
     ''- '' @ author_spec c @ '': '' @ take 200 (body_spec c) @ ''\<newline>''"

definition issue_block_spec :: "issue \<Rightarrow> string" where
  "issue_block_spec i =
     ''Issue: '' @ title i @ ''\<newline>'' @
     concat (map comment_line_spec (comments i)) @ ''\<newline>''"

definition context_spec :: "issue list \<Rightarrow> string" where
  "context_spec issues_data = concat (map issue_block_spec issues_data)"

section \<open>Example inputs\<close>

definition bug_a :: issue where
  "bug_a =
     \<lparr>title = ''Bug A'',
      comments =
        [\<lparr>user = Value \<lparr>login = Value ''alice''\<rparr>, body = Value ''fails on load''\<rparr>,
         \<lparr>user = Absent, body = Value (replicate 300 (CHR ''x''))\<rparr>]\<rparr>"

definition bug_null_author :: issue where
  "bug_null_author =
     \<lparr>title = ''Bug B'', comments = [\<lparr>user = Null, body = Value ''fails on load''\<rparr>]\<rparr>"

definition bug_null_login :: issue where
  "bug_null_login =
     \<lparr>title = ''Bug C'', comments = [\<lparr>user = Value \<lparr>login = Null\<rparr>, body = Value ''a''\<rparr>]\<rparr>"


text \<open>A completion endpoint that answers every request, and a tracker that refuses every post.\<close>

definition failing_publisher :: env where
  "failing_publisher =
     \<lparr>chat_completions_create = (\<lambda>h m sys usr. Inr [Some ''v2'']),
      requests_post = (\<lambda>h url b. Http_error ''503 Server Error'')\<rparr>"

text \<open>A completion endpoint whose only choice has an empty content.\<close>

definition empty_reply :: env where
  "empty_reply =
     \<lparr>chat_completions_create = (\<lambda>h m sys usr. Inr [Some '''']),
      requests_post = (\<lambda>h url b. Http_ok)\<rparr>"

text \<open>A completion endpoint that raises on every request.\<close>

definition failing_client :: env where
  "failing_client =
     \<lparr>chat_completions_create = (\<lambda>h m sys usr. Inl (Raise APIError ''quota exceeded'')),
      requests_post = (\<lambda>h url b. Http_ok)\<rparr>"

text \<open>
  A completion endpoint that answers its first request with a long text and every later
  one with a short text, and a tracker that accepts every post.
\<close>

definition helpful :: env where
  "helpful =
     \<lparr>chat_completions_create =
        (\<lambda>h m sys usr. Inr [Some (if completion_calls h = [] then ''long summary''
                                   else ''short summary'')]),
      requests_post = (\<lambda>h url b. Http_ok)\<rparr>"

section \<open>Recent comments\<close>

lemma slice_last:
  assumes "0 < n" and "n \<le> int (length cs)"
  shows "slice_from (- n) cs = drop (length cs - nat n) cs"
proof -
  from assms have "nat (int (length cs) - n) = length cs - nat n" by arith
  with assms show ?thesis by (simp add: slice_from_def max_def)
qed

text \<open>
  C10: for every list of comments and every \<open>n \<ge> 1\<close> the selection at line 168 returns the
  last \<open>min n (length comments)\<close> comments in their order; for \<open>n = 0\<close> the slice
  \<^verbatim>\<open>comments[-0:]\<close> is the whole list, so asking for no comment returns all of them.
\<close>

theorem recent_comment_selection:
  "(1 \<le> n \<longrightarrow>
      fst (fetch_recent_comments (Json_list cs) n)
        = Inr (drop (length cs - min (nat n) (length cs)) cs)) \<and>
   fst (fetch_recent_comments (Json_list cs) 0) = Inr cs"
proof -
  have "fst (fetch_recent_comments (Json_list cs) n)
          = Inr (drop (length cs - min (nat n) (length cs)) cs)" if "1 \<le> n"
  proof (cases "n \<le> int (length cs)")
    case True
    with that have "min (nat n) (length cs) = nat n" by arith
    with True that show ?thesis by (simp add: fetch_recent_comments_def slice_last)
  next
    case False
    then have "min (nat n) (length cs) = length cs" by arith
    with False show ?thesis by (simp add: fetch_recent_comments_def)
  qed
  moreover have "fst (fetch_recent_comments (Json_list cs) 0) = Inr cs"
    by (simp add: fetch_recent_comments_def slice_from_def)
  ultimately show ?thesis by blast
qed

theorem recent_comment_selection_witness:
  "(1::int) \<le> 2 \<and>
   fst (fetch_recent_comments (Json_list [10, 20, 30 :: nat]) 2) = Inr [20, 30] \<and>
   fst (fetch_recent_comments (Json_list [10, 20, 30 :: nat]) 0) = Inr [10, 20, 30]"
  using recent_comment_selection [of 2 "[10, 20, 30 :: nat]"] by simp

section \<open>The assembled context\<close>

lemma comment_loop_spec:
  "\<forall>c \<in> set cs. well_typed_comment c \<Longrightarrow>
   comment_loop ctx cs = Inr (ctx @ concat (map comment_line_spec cs))"
proof (induction cs arbitrary: ctx)
  case Nil
  show ?case by simp
next
  case (Cons c cs)
  from Cons.prems have wt: "well_typed_comment c" and rest: "\<forall>c \<in> set cs. well_typed_comment c"
    by simp_all
  from wt have "get_body c = Inr (take 200 (body_spec c))"
    by (auto simp: get_body_def body_spec_def well_typed_comment_def split: field.splits)
  moreover from wt have "get_login c = Inr (Some (author_spec c))"
    by (auto simp: get_login_def author_spec_def well_typed_comment_def split: field.splits)
  ultimately show ?case
    using Cons.IH [OF rest] by (simp add: comment_line_spec_def)
qed

lemma issue_loop_spec:
  "\<forall>i \<in> set is. \<forall>c \<in> set (comments i). well_typed_comment c \<Longrightarrow>
   issue_loop ctx is = Inr (ctx @ concat (map issue_block_spec is))"
proof (induction "is" arbitrary: ctx)
  case Nil
  show ?case by simp
next
  case (Cons i rest)
  from Cons.prems have "\<forall>c \<in> set (comments i). well_typed_comment c" by simp
  then have "comment_loop (ctx @ ''Issue: '' @ title i @ ''\<newline>'') (comments i)
      = Inr (ctx @ ''Issue: '' @ title i @ ''\<newline>'' @
             concat (map comment_line_spec (comments i)))"
    by (simp add: comment_loop_spec)
  moreover from Cons.prems
  have "\<forall>i \<in> set rest. \<forall>c \<in> set (comments i). well_typed_comment c"
    by simp
  ultimately show ?case
    using Cons.IH by (simp add: issue_block_spec_def)
qed

text \<open>
  C3, as the code has it: for every list of issues in which no comment has a \<^verbatim>\<open>null\<close>
  user, login or body (each is absent or a string), the context built by lines 191 to 199
  is the concatenation, issue by issue in the given order, of \<^verbatim>\<open>Issue: {title}\<close> and a
  newline, one line \<^verbatim>\<open>- {author}: {body[:200]}\<close> per comment in the given order (a missing
  author is \<^verbatim>\<open>unknown\<close>, a missing body is empty), and an empty line. A comment contributes
  the first 200 units of its body and no more: its line has the length of the author plus
  \<open>min 200 (length body)\<close> plus the five units of the dash, the colon, two spaces and the
  newline. The context is a function of the issues alone (it reads neither the trace nor a
  remote service), so equal inputs give equal contexts.
\<close>

theorem context_assembly:
  assumes "\<forall>i \<in> set issues_data. \<forall>c \<in> set (comments i). well_typed_comment c"
  shows "build_context issues_data = Inr (context_spec issues_data) \<and>
         (\<forall>i \<in> set issues_data. \<forall>c \<in> set (comments i).
            length (comment_line_spec c)
              = length (author_spec c) + min 200 (length (body_spec c)) + 5) \<and>
         (\<forall>issues_data'. issues_data' = issues_data \<longrightarrow>
            build_context issues_data' = build_context issues_data)"
  using assms
  by (simp add: build_context_def context_spec_def issue_loop_spec comment_line_spec_def
        min.commute)

theorem context_assembly_witness:
  "list_all well_typed_comment (comments bug_a) \<and>
   build_context [bug_a]
     = Inr (''Issue: Bug A\<newline>- alice: fails on load\<newline>- unknown: '' @
            replicate 200 (CHR ''x'') @ ''\<newline>\<newline>'')"
proof -
  have wt: "\<forall>i \<in> set [bug_a]. \<forall>c \<in> set (comments i). well_typed_comment c"
    by (simp add: bug_a_def well_typed_comment_def)
  have "context_spec [bug_a]
          = ''Issue: Bug A\<newline>- alice: fails on load\<newline>- unknown: '' @
            replicate 200 (CHR ''x'') @ ''\<newline>\<newline>''"
    by (simp add: context_spec_def issue_block_spec_def comment_line_spec_def author_spec_def
          body_spec_def bug_a_def)
  with wt context_assembly [OF wt] show ?thesis by (simp add: list_all_iff)
qed

text \<open>
  C3 as stated, for every list of issues, fails: with a \<^verbatim>\<open>null\<close> user no context is built
  at all (line 196 raises), and with a \<^verbatim>\<open>null\<close> login the author is rendered as
  \<^verbatim>\<open>None\<close>, where the description of the claim gives \<^verbatim>\<open>unknown\<close>.
\<close>

theorem null_fields_break_assembly:
  "build_context [bug_null_author] = Inl none_has_no_get \<and>
   build_context [bug_null_login] = Inr ''Issue: Bug C\<newline>- None: a\<newline>\<newline>'' \<and>
   context_spec [bug_null_login] = ''Issue: Bug C\<newline>- unknown: a\<newline>\<newline>''"
  by (simp add: build_context_def bug_null_author_def bug_null_login_def get_login_def
        get_body_def context_spec_def issue_block_spec_def comment_line_spec_def
        author_spec_def body_spec_def)

section \<open>Null fields\<close>

lemma comment_loop_errors:
  "comment_loop ctx cs = Inl e \<Longrightarrow> e = none_has_no_get \<or> e = none_not_subscriptable"
  by (induction cs arbitrary: ctx)
     (auto simp: get_login_def get_body_def split: field.splits sum.splits)

lemma comment_loop_null:
  "c \<in> set cs \<Longrightarrow> user c = Null \<or> body c = Null \<Longrightarrow> \<exists>e. comment_loop ctx cs = Inl e"
proof (induction cs arbitrary: ctx)
  case Nil
  then show ?case by simp
next
  case (Cons a cs)
  show ?case
  proof (cases "a = c")
    case True
    with Cons.prems show ?thesis
      by (auto simp: get_login_def get_body_def split: field.splits sum.splits)
  next
    case False
    with Cons.prems have "c \<in> set cs" by simp
    from Cons.IH [OF this Cons.prems(2)] show ?thesis
      by (auto split: sum.splits)
  qed
qed

lemma issue_loop_errors:
  "issue_loop ctx is = Inl e \<Longrightarrow> e = none_has_no_get \<or> e = none_not_subscriptable"
  by (induction "is" arbitrary: ctx) (auto split: sum.splits dest: comment_loop_errors)

lemma issue_loop_null:
  "i \<in> set is \<Longrightarrow> c \<in> set (comments i) \<Longrightarrow> user c = Null \<or> body c = Null \<Longrightarrow>
   \<exists>e. issue_loop ctx is = Inl e"
proof (induction "is" arbitrary: ctx)
  case Nil
  then show ?case by simp
next
  case (Cons a rest)
  show ?case
  proof (cases "a = i")
    case True
    from Cons.prems(2,3) obtain e
      where "comment_loop (ctx @ ''Issue: '' @ title i @ ''\<newline>'') (comments i) = Inl e"
      using comment_loop_null by blast
    with True show ?thesis by simp
  next
    case False
    with Cons.prems have "i \<in> set rest" by simp
    from Cons.IH [OF this Cons.prems(2,3)] show ?thesis
      by (auto split: sum.splits)
  qed
qed

text \<open>
  C9: when some comment of some issue has a \<^verbatim>\<open>user\<close> field or a \<^verbatim>\<open>body\<close> field that is
  present but \<^verbatim>\<open>null\<close>, building the context raises (an \<^verbatim>\<open>AttributeError\<close> of line 196 or
  a \<^verbatim>\<open>TypeError\<close> of line 197) instead of applying the defaults; the handler of line 213
  prints the error and exits with status 1, so no completion is requested and the whole
  session ends there.
\<close>

theorem null_field_aborts_session:
  assumes "i \<in> set issues_data" and "c \<in> set (comments i)"
    and "user c = Null \<or> body c = Null"
  shows "\<exists>e. (e = none_has_no_get \<or> e = none_not_subscriptable) \<and>
           build_context issues_data = Inl e \<and>
           assemble_summary env tr issues_data instructions
             = (Inl (SystemExit 1),
                tr @ [Print (''Error: Failed to generate summary: '' @ str_exn e)]) \<and>
           main_from_issues env url instructions issues_data inputs
             = (Terminal (Exited (SystemExit 1)),
                [Print ''Generating summary...'',
                 Print (''Error: Failed to generate summary: '' @ str_exn e)])"
proof -
  from assms obtain e where e: "build_context issues_data = Inl e"
    unfolding build_context_def using issue_loop_null by blast
  then have k: "e = none_has_no_get \<or> e = none_not_subscriptable"
    unfolding build_context_def by (rule issue_loop_errors)
  from e have a: "assemble_summary env t issues_data instructions
      = (Inl (SystemExit 1), t @ [Print (''Error: Failed to generate summary: '' @ str_exn e)])"
    for t
    by (simp add: assemble_summary_def summary_failed_def)
  from assms(1) have "issues_data \<noteq> []" by auto
  with a have "main_from_issues env url instructions issues_data inputs
      = (Terminal (Exited (SystemExit 1)),
         [Print ''Generating summary...'',
          Print (''Error: Failed to generate summary: '' @ str_exn e)])"
    by (simp add: main_from_issues_def)
  with e k a show ?thesis by blast
qed

theorem null_field_aborts_session_witness:
  "build_context [bug_a, bug_null_author] = Inl none_has_no_get \<and>
   fst (main_from_issues failing_publisher ''u'' ''ins'' [bug_a, bug_null_author] [Line ''y''])
     = Terminal (Exited (SystemExit 1)) \<and>
   completion_calls
     (snd (main_from_issues failing_publisher ''u'' ''ins'' [bug_a, bug_null_author] [Line ''y'']))
     = []"
proof -
  have i: "bug_null_author \<in> set [bug_a, bug_null_author]" by simp
  have c: "\<lparr>user = Null, body = Value ''fails on load''\<rparr> \<in> set (comments bug_null_author)"
    by (simp add: bug_null_author_def)
  have n: "user \<lparr>user = Null, body = Value ''fails on load''\<rparr> = Null \<or>
           body \<lparr>user = Null, body = Value ''fails on load''\<rparr> = Null"
    by simp
  have b: "build_context [bug_a, bug_null_author] = Inl none_has_no_get"
    by (simp add: build_context_def bug_a_def bug_null_author_def get_login_def get_body_def)
  from null_field_aborts_session [OF i c n, of failing_publisher "[]" "''ins''" "''u''" "[Line ''y'']"] b
  show ?thesis
    by (auto simp: completion_calls_def)
qed

section \<open>Steps of the review loop\<close>

lemma completion_calls_append [simp]:
  "completion_calls (a @ b) = completion_calls a @ completion_calls b"
  by (simp add: completion_calls_def)

lemma post_calls_append [simp]: "post_calls (a @ b) = post_calls a @ post_calls b"
  by (simp add: post_calls_def)

lemma completion_calls_simps [simp]:
  "completion_calls [] = []"
  "completion_calls (Print x # tr) = completion_calls tr"
  "completion_calls (Prompt x # tr) = completion_calls tr"
  "completion_calls (Post u b # tr) = completion_calls tr"
  "completion_calls (Chat_completion m sys usr # tr) = (sys, usr) # completion_calls tr"
  by (simp_all add: completion_calls_def)

lemma post_calls_simps [simp]:
  "post_calls [] = []"
  "post_calls (Print x # tr) = post_calls tr"
  "post_calls (Prompt x # tr) = post_calls tr"
  "post_calls (Post u b # tr) = (u, b) # post_calls tr"
  "post_calls (Chat_completion m sys usr # tr) = post_calls tr"
  by (simp_all add: post_calls_def)

lemma post_summary_calls:
  "post_calls (snd (post_summary env tr url s)) = post_calls tr @ [(url @ ''/comments'', s)]"
  by (simp add: post_summary_def Let_def split: http_result.splits)

lemma post_summary_ok:
  "fst (post_summary env tr url s) = (requests_post env tr (url @ ''/comments'') s = Http_ok)"
  by (simp add: post_summary_def Let_def split: http_result.splits)

lemma step_decision:
  "status cfg = Awaiting AwaitingDecision \<Longrightarrow>
   step env url ins cfg k = on_decision env url (summary cfg) (trace cfg) k"
  by (simp add: step_def)

lemma step_instruction:
  "status cfg = Awaiting AwaitingInstruction \<Longrightarrow>
   step env url ins cfg k = on_instruction env ins (summary cfg) (trace cfg) k"
  by (simp add: step_def)

lemma step_revised:
  "status cfg = Awaiting AwaitingRevisedDecision \<Longrightarrow>
   step env url ins cfg k = on_revised_decision env url (summary cfg) (trace cfg) k"
  by (simp add: step_def)

lemma run_terminal: "status cfg = Terminal t \<Longrightarrow> run env url ins cfg ks = cfg"
  by (induction ks) (simp_all add: step_def)

lemma run_append:
  "run env url ins cfg (ks @ ks') = run env url ins (run env url ins cfg ks) ks'"
  by (induction ks arbitrary: cfg) simp_all

lemma on_decision_yes:
  assumes "lower (strip l) = ''y''"
  shows "on_decision env url s tr (Line l) =
           finish (if requests_post env tr (url @ ''/comments'') s = Http_ok
                   then Published else PublishFailed) s
             (snd (post_summary env tr url s))"
  using assms by (simp add: on_decision_def post_summary_ok [symmetric] split: prod.splits)

lemma on_revised_yes:
  assumes "lower (strip l) = ''y''"
  shows "on_revised_decision env url s tr (Line l) =
           (if requests_post env tr (url @ ''/comments'') s = Http_ok
            then finish Published s (snd (post_summary env tr url s))
            else await AwaitingInstruction s
                   (snd (post_summary env tr url s) @ [Print more_instructions]))"
  using assms
  by (simp add: on_revised_decision_def post_summary_ok [symmetric] split: prod.splits)

lemma on_instruction_done:
  assumes "lower (strip d) = ''done''"
  shows "on_instruction env ins s tr (Line d)
           = finish Aborted s (tr @ [Print ''Exiting without posting.''])"
  using assms by (simp add: on_instruction_def)



lemma on_instruction_choice:
  assumes "lower (strip x) \<noteq> ''done''"
    and "chat_completions_create env tr MODEL_NAME ins (revision_prompt s x) = Inr (c # cs)"
  shows "on_instruction env ins s tr (Line x)
           = await AwaitingRevisedDecision c
               (tr @ [Chat_completion MODEL_NAME ins (revision_prompt s x),
                      Print ''\<newline>--- Revised Summary ---\<newline>'',
                      Print (py_format c),
                      Print ''\<newline>----------------------\<newline>''])"
  using assms by (simp add: on_instruction_def)

lemma on_instruction_calls:
  assumes "lower (strip x) \<noteq> ''done''"
  shows "completion_calls (trace (on_instruction env ins s tr (Line x)))
           = completion_calls tr @ [(ins, revision_prompt s x)]"
  using assms
  by (simp add: on_instruction_def Let_def revision_failed_def await_def
        split: sum.splits list.splits)



text \<open>
  A run only adds to the trace. The summary it ends with is the last text generated in
  what it added, and unless it ended on a successful post, every post it added was
  refused.
\<close>

lemma all_posts_refused_append:
  "all_posts_refused env h (a @ b)
     = (all_posts_refused env h a \<and> all_posts_refused env (h @ a) b)"
  by (induction a arbitrary: h) simp_all

lemma last_generated_append:
  "last_generated env h s (a @ b)
     = last_generated env (h @ a) (last_generated env h s a) b"
  by (induction a arbitrary: h s) simp_all

lemma step_extends:
  "\<exists>a. trace (step env url ins cfg k) = trace cfg @ a \<and>
       summary (step env url ins cfg k) = last_generated env (trace cfg) (summary cfg) a \<and>
       (status (step env url ins cfg k) \<noteq> Terminal Published \<longrightarrow>
          all_posts_refused env (trace cfg) a)"
proof (cases "status cfg")
  case (Terminal t)
  then have "step env url ins cfg k = cfg" by (simp add: step_def)
  then show ?thesis by simp
next
  case (Awaiting p)
  show ?thesis
  proof (cases p)
    case AwaitingDecision
    with Awaiting show ?thesis
      by (auto simp: step_decision on_decision_def post_summary_def Let_def finish_def await_def
            split: keyboard.splits http_result.splits)
  next
    case AwaitingRevisedDecision
    with Awaiting show ?thesis
      by (auto simp: step_revised on_revised_decision_def post_summary_def Let_def finish_def
            await_def revision_failed_def split: keyboard.splits http_result.splits)
  next
    case AwaitingInstruction
    with Awaiting show ?thesis
      by (auto simp: step_instruction on_instruction_def Let_def finish_def
            await_def revision_failed_def split: keyboard.splits sum.splits list.splits)
  qed
qed

lemma run_extends:
  "\<exists>a. trace (run env url ins cfg ks) = trace cfg @ a \<and>
       summary (run env url ins cfg ks) = last_generated env (trace cfg) (summary cfg) a \<and>
       (status (run env url ins cfg ks) \<noteq> Terminal Published \<longrightarrow>
          all_posts_refused env (trace cfg) a)"
proof (induction ks arbitrary: cfg)
  case Nil
  show ?case by simp
next
  case (Cons k ks)
  let ?c = "step env url ins cfg k"
  from step_extends [of env url ins cfg k] obtain a
    where a: "trace ?c = trace cfg @ a"
      "summary ?c = last_generated env (trace cfg) (summary cfg) a"
      "status ?c \<noteq> Terminal Published \<longrightarrow> all_posts_refused env (trace cfg) a"
    by blast
  from Cons.IH [of ?c] obtain b
    where b: "trace (run env url ins ?c ks) = trace ?c @ b"
      "summary (run env url ins ?c ks) = last_generated env (trace ?c) (summary ?c) b"
      "status (run env url ins ?c ks) \<noteq> Terminal Published \<longrightarrow>
         all_posts_refused env (trace ?c) b"
    by blast
  have "status (run env url ins ?c ks) \<noteq> Terminal Published \<Longrightarrow> status ?c \<noteq> Terminal Published"
    using run_terminal [of ?c Published env url ins ks] by auto
  with a b have "trace (run env url ins cfg (k # ks)) = trace cfg @ (a @ b) \<and>
      summary (run env url ins cfg (k # ks))
        = last_generated env (trace cfg) (summary cfg) (a @ b) \<and>
      (status (run env url ins cfg (k # ks)) \<noteq> Terminal Published \<longrightarrow>
         all_posts_refused env (trace cfg) (a @ b))"
    by (auto simp: last_generated_append all_posts_refused_append)
  then show ?case by blast
qed

section \<open>Publishing\<close>

text \<open>
  C1, as the code has it: when the operator answers \<^verbatim>\<open>y\<close> at the initial decision, exactly
  one post is attempted, with the current summary, its outcome is printed (the success
  line, or the error line with the message of the failure), and the function returns
  whether the post succeeded (\<open>Published\<close>) or not (\<open>PublishFailed\<close>); nothing is read or
  posted after that. When the operator answers \<^verbatim>\<open>y\<close> at the decision after a revision,
  exactly one post is attempted, with the current summary, and its outcome is printed in
  the same way; the function returns when the post succeeded, and otherwise prints the
  invitation to enter more instructions and goes back to asking for an instruction, the
  summary unchanged.
\<close>

theorem publish_on_yes:
  assumes "lower (strip l) = ''y''"
  shows "(status cfg = Awaiting AwaitingDecision \<longrightarrow>
            post_calls (trace (step env url ins cfg (Line l)))
              = post_calls (trace cfg) @ [(url @ ''/comments'', summary cfg)] \<and>
            status (step env url ins cfg (Line l))
              = Terminal (if requests_post env (trace cfg) (url @ ''/comments'') (summary cfg)
                             = Http_ok
                          then Published else PublishFailed) \<and>
            run env url ins (step env url ins cfg (Line l)) ks = step env url ins cfg (Line l) \<and>
            trace (step env url ins cfg (Line l))
              = trace cfg @
                [Post (url @ ''/comments'') (summary cfg),
                 Print (case requests_post env (trace cfg) (url @ ''/comments'') (summary cfg) of
                          Http_ok \<Rightarrow> ''Summary posted to issue.''
                        | Http_error msg \<Rightarrow> ''Error: Failed to post summary: '' @ msg)]) \<and>
         (status cfg = Awaiting AwaitingRevisedDecision \<longrightarrow>
            post_calls (trace (step env url ins cfg (Line l)))
              = post_calls (trace cfg) @ [(url @ ''/comments'', summary cfg)] \<and>
            status (step env url ins cfg (Line l))
              = (if requests_post env (trace cfg) (url @ ''/comments'') (summary cfg) = Http_ok
                 then Terminal Published else Awaiting AwaitingInstruction) \<and>
            summary (step env url ins cfg (Line l)) = summary cfg \<and>
            trace (step env url ins cfg (Line l))
              = trace cfg @
                [Post (url @ ''/comments'') (summary cfg),
                 Print (case requests_post env (trace cfg) (url @ ''/comments'') (summary cfg) of
                          Http_ok \<Rightarrow> ''Summary posted to issue.''
                        | Http_error msg \<Rightarrow> ''Error: Failed to post summary: '' @ msg)] @
                (if requests_post env (trace cfg) (url @ ''/comments'') (summary cfg) = Http_ok
                 then []
                 else [Print ''You can enter more instructions or type 'done' to exit.'',
                       Prompt ''> '']))"
proof -
  let ?c = "step env url ins cfg (Line l)"
  let ?out = "Print (case requests_post env (trace cfg) (url @ ''/comments'') (summary cfg) of
                       Http_ok \<Rightarrow> ''Summary posted to issue.''
                     | Http_error msg \<Rightarrow> ''Error: Failed to post summary: '' @ msg)"
  have ps: "snd (post_summary env (trace cfg) url (summary cfg))
      = trace cfg @ [Post (url @ ''/comments'') (summary cfg), ?out]"
    by (simp add: post_summary_def Let_def split: http_result.splits)
  have initial: "post_calls (trace ?c)
        = post_calls (trace cfg) @ [(url @ ''/comments'', summary cfg)] \<and>
      status ?c
        = Terminal (if requests_post env (trace cfg) (url @ ''/comments'') (summary cfg) = Http_ok
                    then Published else PublishFailed) \<and>
      run env url ins ?c ks = ?c \<and>
      trace ?c = trace cfg @ [Post (url @ ''/comments'') (summary cfg), ?out]"
    if d: "status cfg = Awaiting AwaitingDecision"
  proof -
    from d assms have c: "?c = finish
        (if requests_post env (trace cfg) (url @ ''/comments'') (summary cfg) = Http_ok
         then Published else PublishFailed) (summary cfg)
        (snd (post_summary env (trace cfg) url (summary cfg)))"
      by (simp add: step_decision on_decision_yes)
    then have st: "status ?c
        = Terminal (if requests_post env (trace cfg) (url @ ''/comments'') (summary cfg) = Http_ok
                    then Published else PublishFailed)"
      by (simp add: finish_def)
    from st have "run env url ins ?c ks = ?c" by (rule run_terminal)
    moreover from c have "trace ?c = trace cfg @ [Post (url @ ''/comments'') (summary cfg), ?out]"
      by (simp only: ps finish_def config.simps)
    moreover from c have "post_calls (trace ?c)
        = post_calls (trace cfg) @ [(url @ ''/comments'', summary cfg)]"
      by (simp add: finish_def post_summary_calls)
    ultimately show ?thesis using st by blast
  qed
  have revised: "post_calls (trace ?c)
        = post_calls (trace cfg) @ [(url @ ''/comments'', summary cfg)] \<and>
      status ?c
        = (if requests_post env (trace cfg) (url @ ''/comments'') (summary cfg) = Http_ok
           then Terminal Published else Awaiting AwaitingInstruction) \<and>
      summary ?c = summary cfg \<and>
      trace ?c = trace cfg @ [Post (url @ ''/comments'') (summary cfg), ?out] @
        (if requests_post env (trace cfg) (url @ ''/comments'') (summary cfg) = Http_ok
         then []
         else [Print ''You can enter more instructions or type 'done' to exit.'',
               Prompt ''> ''])"
    if r: "status cfg = Awaiting AwaitingRevisedDecision"
  proof -
    from r assms have c: "?c =
        (if requests_post env (trace cfg) (url @ ''/comments'') (summary cfg) = Http_ok
         then finish Published (summary cfg) (snd (post_summary env (trace cfg) url (summary cfg)))
         else await AwaitingInstruction (summary cfg)
                (snd (post_summary env (trace cfg) url (summary cfg)) @
                 [Print more_instructions]))"
      by (simp add: step_revised on_revised_yes)
    then have "post_calls (trace ?c)
        = post_calls (trace cfg) @ [(url @ ''/comments'', summary cfg)]"
      by (simp add: finish_def await_def post_summary_calls)
    moreover from c have "status ?c
        = (if requests_post env (trace cfg) (url @ ''/comments'') (summary cfg) = Http_ok
           then Terminal Published else Awaiting AwaitingInstruction)"
      by (simp add: finish_def await_def)
    moreover from c have "summary ?c = summary cfg"
      by (simp add: finish_def await_def)
    moreover from c have "trace ?c = trace cfg @ [Post (url @ ''/comments'') (summary cfg), ?out] @
        (if requests_post env (trace cfg) (url @ ''/comments'') (summary cfg) = Http_ok
         then []
         else [Print ''You can enter more instructions or type 'done' to exit.'',
               Prompt ''> ''])"
      by (simp add: ps finish_def await_def more_instructions_def)
    ultimately show ?thesis by blast
  qed
  from initial revised show ?thesis by blast
qed

theorem publish_on_yes_witness:
  "lower (strip ''Y '') = ''y'' \<and>
   status (step failing_publisher ''u'' ''ins''
             (await AwaitingRevisedDecision (Some ''v2'') []) (Line ''Y ''))
     = Awaiting AwaitingInstruction \<and>
   trace (step failing_publisher ''u'' ''ins''
            (await AwaitingRevisedDecision (Some ''v2'') []) (Line ''Y ''))
     = [Prompt ''Post this revised summary to the initiative issue? (y/n): '',
        Post ''u/comments'' (Some ''v2''),
        Print ''Error: Failed to post summary: 503 Server Error'',
        Print ''You can enter more instructions or type 'done' to exit.'',
        Prompt ''> ''] \<and>
   status (step failing_publisher ''u'' ''ins''
             (await AwaitingDecision (Some ''v1'') []) (Line ''Y ''))
     = Terminal PublishFailed \<and>
   trace (step failing_publisher ''u'' ''ins''
            (await AwaitingDecision (Some ''v1'') []) (Line ''Y ''))
     = [Prompt ''Post this summary to the initiative issue? (y/n): '',
        Post ''u/comments'' (Some ''v1''),
        Print ''Error: Failed to post summary: 503 Server Error'']"
proof -
  have h: "lower (strip ''Y '') = ''y''" by code_simp
  show ?thesis
    using h
      publish_on_yes [OF h, of "await AwaitingRevisedDecision (Some ''v2'') []"
        failing_publisher "''u''" "''ins''" "[]"]
      publish_on_yes [OF h, of "await AwaitingDecision (Some ''v1'') []"
        failing_publisher "''u''" "''ins''" "[]"]
    by (simp add: await_def failing_publisher_def)
qed

text \<open>
  C1 as stated fails: with a tracker that refuses every post, the answer \<^verbatim>\<open>y\<close> after a
  revision leaves the function waiting for an instruction, and a further revision and
  \<^verbatim>\<open>y\<close> post a second time in the same run.
\<close>

theorem second_publish_attempt:
  "status (review_and_post_summary failing_publisher ''u'' (Some ''v1'') ''ins'' []
             [Line ''n'', Line ''shorter'', Line ''y''])
     = Awaiting AwaitingInstruction \<and>
   post_calls (trace (review_and_post_summary failing_publisher ''u'' (Some ''v1'') ''ins'' []
             [Line ''n'', Line ''shorter'', Line ''y'', Line ''again'', Line ''y'']))
     = [(''u/comments'', Some ''v2''), (''u/comments'', Some ''v2'')]"
  by code_simp

section \<open>Completion calls\<close>

text \<open>
  C2 as stated fails: a response whose first choice has an empty content is no failure;
  the empty text is returned by \<^verbatim>\<open>assemble_summary\<close>, and in a revision it becomes the
  summary and is posted.
\<close>

theorem empty_text_adopted:
  "fst (assemble_summary empty_reply [] [bug_a] ''ins'') = Inr (Some '''') \<and>
   status (review_and_post_summary empty_reply ''u'' (Some ''v1'') ''ins'' []
             [Line ''n'', Line ''shorter'', Line ''y''])
     = Terminal Published \<and>
   post_calls (trace (review_and_post_summary empty_reply ''u'' (Some ''v1'') ''ins'' []
             [Line ''n'', Line ''shorter'', Line ''y'']))
     = [(''u/comments'', Some '''')]"
  by code_simp

text \<open>
  C2, as the code has it: a completion call fails when the endpoint raises or when the
  response has no choice; the initial call then exits with status 1, a revision keeps the
  summary and asks for another instruction. In every other case the content of the first
  choice is taken as it is, empty or \<^verbatim>\<open>None\<close> included, as the result of
  \<^verbatim>\<open>assemble_summary\<close> or as the new summary.
\<close>

theorem completion_failure_cases:
  "(build_context issues_data = Inr ctx \<longrightarrow>
      (\<forall>e. chat_completions_create env tr MODEL_NAME ins ctx = Inl e \<longrightarrow>
         fst (assemble_summary env tr issues_data ins) = Inl (SystemExit 1)) \<and>
      (chat_completions_create env tr MODEL_NAME ins ctx = Inr [] \<longrightarrow>
         fst (assemble_summary env tr issues_data ins) = Inl (SystemExit 1)) \<and>
      (\<forall>c cs. chat_completions_create env tr MODEL_NAME ins ctx = Inr (c # cs) \<longrightarrow>
         fst (assemble_summary env tr issues_data ins) = Inr c)) \<and>
   (status cfg = Awaiting AwaitingInstruction \<and> lower (strip x) \<noteq> ''done'' \<longrightarrow>
      (\<forall>e. chat_completions_create env (trace cfg) MODEL_NAME ins
              (revision_prompt (summary cfg) x) = Inl e \<longrightarrow>
         summary (step env url ins cfg (Line x)) = summary cfg \<and>
         status (step env url ins cfg (Line x)) = Awaiting AwaitingInstruction) \<and>
      (chat_completions_create env (trace cfg) MODEL_NAME ins
              (revision_prompt (summary cfg) x) = Inr [] \<longrightarrow>
         summary (step env url ins cfg (Line x)) = summary cfg \<and>
         status (step env url ins cfg (Line x)) = Awaiting AwaitingInstruction) \<and>
      (\<forall>c cs. chat_completions_create env (trace cfg) MODEL_NAME ins
              (revision_prompt (summary cfg) x) = Inr (c # cs) \<longrightarrow>
         summary (step env url ins cfg (Line x)) = c \<and>
         status (step env url ins cfg (Line x)) = Awaiting AwaitingRevisedDecision))"
proof -
  have initial: "fst (assemble_summary env tr issues_data ins) =
      (case chat_completions_create env tr MODEL_NAME ins ctx of
         Inl e \<Rightarrow> Inl (SystemExit 1)
       | Inr choices \<Rightarrow> (case choices of [] \<Rightarrow> Inl (SystemExit 1) | c # cs \<Rightarrow> Inr c))"
    if "build_context issues_data = Inr ctx"
    using that
    by (simp add: assemble_summary_def summary_failed_def Let_def split: sum.splits list.splits)
  have revision: "summary (step env url ins cfg (Line x)) =
        (case chat_completions_create env (trace cfg) MODEL_NAME ins
                (revision_prompt (summary cfg) x) of
           Inl e \<Rightarrow> summary cfg
         | Inr choices \<Rightarrow> (case choices of [] \<Rightarrow> summary cfg | c # cs \<Rightarrow> c)) \<and>
      status (step env url ins cfg (Line x)) =
        (case chat_completions_create env (trace cfg) MODEL_NAME ins
                (revision_prompt (summary cfg) x) of
           Inl e \<Rightarrow> Awaiting AwaitingInstruction
         | Inr choices \<Rightarrow>
             (case choices of [] \<Rightarrow> Awaiting AwaitingInstruction
              | c # cs \<Rightarrow> Awaiting AwaitingRevisedDecision))"
    if "status cfg = Awaiting AwaitingInstruction" and "lower (strip x) \<noteq> ''done''"
    using that
    by (simp add: step_instruction on_instruction_def Let_def revision_failed_def await_def
          split: sum.splits list.splits)
  show ?thesis
  proof (intro conjI impI allI)
    fix e assume "build_context issues_data = Inr ctx"
      and "chat_completions_create env tr MODEL_NAME ins ctx = Inl e"
    then show "fst (assemble_summary env tr issues_data ins) = Inl (SystemExit 1)"
      by (simp add: initial)
  next
    assume "build_context issues_data = Inr ctx"
      and "chat_completions_create env tr MODEL_NAME ins ctx = Inr []"
    then show "fst (assemble_summary env tr issues_data ins) = Inl (SystemExit 1)"
      by (simp add: initial)
  next
    fix c cs assume "build_context issues_data = Inr ctx"
      and "chat_completions_create env tr MODEL_NAME ins ctx = Inr (c # cs)"
    then show "fst (assemble_summary env tr issues_data ins) = Inr c"
      by (simp add: initial)
  qed (use revision in \<open>simp_all\<close>)
qed

theorem completion_failure_cases_witness:
  "fst (assemble_summary empty_reply [] [bug_a] ''ins'') = Inr (Some '''') \<and>
   fst (assemble_summary failing_client [] [bug_a] ''ins'') = Inl (SystemExit 1) \<and>
   summary (step failing_client ''u'' ''ins'' (await AwaitingInstruction (Some ''v1'') [])
              (Line ''shorter'')) = Some ''v1'' \<and>
   summary (step empty_reply ''u'' ''ins'' (await AwaitingInstruction (Some ''v1'') [])
              (Line ''shorter'')) = Some ''''"
proof -
  have wt: "\<forall>i \<in> set [bug_a]. \<forall>c \<in> set (comments i). well_typed_comment c"
    by (simp add: bug_a_def well_typed_comment_def)
  have "issue_loop [] [bug_a] = Inr ([] @ concat (map issue_block_spec [bug_a]))"
    using wt by (rule issue_loop_spec)
  then have b: "build_context [bug_a] = Inr (context_spec [bug_a])"
    by (simp only: build_context_def context_spec_def append_Nil)
  have nd: "lower (strip ''shorter'') \<noteq> ''done''" by code_simp
  have st: "status (await AwaitingInstruction (Some ''v1'') []) = Awaiting AwaitingInstruction"
    by (simp add: await_def)
  from b nd st
    completion_failure_cases [of "[bug_a]" "context_spec [bug_a]" empty_reply "[]" "''ins''"
      "await AwaitingInstruction (Some ''v1'') []" "''shorter''" "''u''"]
    completion_failure_cases [of "[bug_a]" "context_spec [bug_a]" failing_client "[]" "''ins''"
      "await AwaitingInstruction (Some ''v1'') []" "''shorter''" "''u''"]
  show ?thesis
    by (simp add: empty_reply_def failing_client_def await_def)
qed

section \<open>Revisions\<close>

text \<open>
  C4: for every instruction other than \<^verbatim>\<open>done\<close> entered while the loop waits for an
  instruction, the completion endpoint is called once more, with the fixed instructions
  as system content and with the user content
  \<^verbatim>\<open>Here is the current summary:\n{summary}\n\nPlease revise it as follows: {instruction}\<close>,
  where \<^verbatim>\<open>summary\<close> is the current summary alone (the text itself when it is a string),
  whatever happened before; when the call yields a first choice, its content replaces the
  summary and the loop asks for the revised decision.
\<close>

theorem revision_request:
  assumes "status cfg = Awaiting AwaitingInstruction" and "lower (strip x) \<noteq> ''done''"
  shows "completion_calls (trace (step env url ins cfg (Line x)))
           = completion_calls (trace cfg) @
             [(ins, ''Here is the current summary:\<newline>'' @ py_format (summary cfg) @
                    ''\<newline>\<newline>Please revise it as follows: '' @ x)] \<and>
         (\<forall>c cs. chat_completions_create env (trace cfg) MODEL_NAME ins
                    (''Here is the current summary:\<newline>'' @ py_format (summary cfg) @
                     ''\<newline>\<newline>Please revise it as follows: '' @ x) = Inr (c # cs) \<longrightarrow>
            summary (step env url ins cfg (Line x)) = c \<and>
            status (step env url ins cfg (Line x)) = Awaiting AwaitingRevisedDecision) \<and>
         (\<forall>t. summary cfg = Some t \<longrightarrow>
            snd (last (completion_calls (trace (step env url ins cfg (Line x)))))
              = ''Here is the current summary:\<newline>'' @ t @
                ''\<newline>\<newline>Please revise it as follows: '' @ x)"
proof -
  let ?u = "''Here is the current summary:\<newline>'' @ py_format (summary cfg) @
            ''\<newline>\<newline>Please revise it as follows: '' @ x"
  have u: "revision_prompt (summary cfg) x = ?u"
    by (simp add: revision_prompt_def)
  from assms(1) have "step env url ins cfg (Line x)
      = on_instruction env ins (summary cfg) (trace cfg) (Line x)"
    by (rule step_instruction)
  with on_instruction_calls [OF assms(2), of env ins "summary cfg" "trace cfg"]
  have calls: "completion_calls (trace (step env url ins cfg (Line x)))
      = completion_calls (trace cfg) @ [(ins, ?u)]"
    by (simp only: u)
  have adopt: "summary (step env url ins cfg (Line x)) = c \<and>
      status (step env url ins cfg (Line x)) = Awaiting AwaitingRevisedDecision"
    if "chat_completions_create env (trace cfg) MODEL_NAME ins ?u = Inr (c # cs)" for c cs
  proof -
    from that have "chat_completions_create env (trace cfg) MODEL_NAME ins
        (revision_prompt (summary cfg) x) = Inr (c # cs)"
      by (simp only: u)
    from on_instruction_choice [OF assms(2) this] assms(1) show ?thesis
      by (simp add: step_instruction await_def)
  qed
  have verbatim: "snd (last (completion_calls (trace (step env url ins cfg (Line x)))))
      = ''Here is the current summary:\<newline>'' @ t @
        ''\<newline>\<newline>Please revise it as follows: '' @ x"
    if "summary cfg = Some t" for t
    using that by (simp add: calls)
  from calls adopt verbatim show ?thesis by blast
qed

theorem revision_request_witness:
  "completion_calls
     (trace (step helpful ''u'' ''ins''
               (await AwaitingInstruction (Some ''long summary'')
                  [Chat_completion MODEL_NAME ''ins'' ''Issue: Bug A'']) (Line ''make it shorter'')))
     = [(''ins'', ''Issue: Bug A''),
        (''ins'', ''Here is the current summary:\<newline>long summary\<newline>\<newline>Please revise it as follows: make it shorter'')] \<and>
   summary (step helpful ''u'' ''ins''
              (await AwaitingInstruction (Some ''long summary'')
                 [Chat_completion MODEL_NAME ''ins'' ''Issue: Bug A'']) (Line ''make it shorter''))
     = Some ''short summary''"
proof -
  have nd: "lower (strip ''make it shorter'') \<noteq> ''done''" by code_simp
  have st: "status (await AwaitingInstruction (Some ''long summary'')
                      [Chat_completion MODEL_NAME ''ins'' ''Issue: Bug A''])
              = Awaiting AwaitingInstruction"
    by (simp add: await_def)
  from revision_request [OF st nd, of helpful "''u''" "''ins''"]
  show ?thesis
    by (simp add: await_def helpful_def)
qed

section \<open>Leaving the loop\<close>

lemma yes_no_literals:
  "lower (strip ''n'') = ''n''" "lower (strip ''y'') = ''y''"
  "lower (strip ''make it shorter'') \<noteq> ''done''"
  "lower (strip ''done'') = ''done''"
  by code_simp+

lemma on_decision_no:
  assumes "lower (strip l) = ''n''"
  shows "on_decision env url s tr (Line l) =
           await AwaitingInstruction s
             (tr @ [Print (''Enter instructions for how to revise the summary, '' @
                           ''or type 'done' to exit:'')])"
  using assms by (simp add: on_decision_def)

text \<open>
  C6, as the code has it: whenever \<^verbatim>\<open>done\<close> (in any case, surrounded by any white space) is
  entered while the loop waits for an instruction, the function returns on the path
  \<open>Aborted\<close>; that input makes no post, and nothing is read or posted after it. The inputs
  \<^verbatim>\<open>n\<close> then \<^verbatim>\<open>done\<close> end in \<open>Aborted\<close> with no post at all. In a run of the loop that
  started from a trace without an accepted post, every post made before \<^verbatim>\<open>done\<close> was
  refused by the tracker, so nothing has been published.
\<close>

theorem done_aborts:
  assumes "lower (strip d) = ''done''"
  shows "(status cfg = Awaiting AwaitingInstruction \<longrightarrow>
            status (step env url ins cfg (Line d)) = Terminal Aborted \<and>
            post_calls (trace (step env url ins cfg (Line d))) = post_calls (trace cfg) \<and>
            run env url ins (step env url ins cfg (Line d)) ks = step env url ins cfg (Line d)) \<and>
         status (review_and_post_summary env url s ins tr [Line ''n'', Line d])
           = Terminal Aborted \<and>
         post_calls (trace (review_and_post_summary env url s ins tr [Line ''n'', Line d]))
           = post_calls tr \<and>
         (all_posts_refused env [] tr \<and>
          status (review_and_post_summary env url s ins tr inputs) = Awaiting AwaitingInstruction \<longrightarrow>
            status (review_and_post_summary env url s ins tr (inputs @ [Line d]))
              = Terminal Aborted \<and>
            post_calls (trace (review_and_post_summary env url s ins tr (inputs @ [Line d])))
              = post_calls (trace (review_and_post_summary env url s ins tr inputs)) \<and>
            all_posts_refused env []
              (trace (review_and_post_summary env url s ins tr (inputs @ [Line d]))))"
proof -
  have one: "status (step env url ins cfg (Line d)) = Terminal Aborted \<and>
      post_calls (trace (step env url ins cfg (Line d))) = post_calls (trace cfg)"
    if "status cfg = Awaiting AwaitingInstruction" for cfg
    using that assms by (simp add: step_instruction on_instruction_done finish_def)
  have stop: "run env url ins (step env url ins cfg (Line d)) ks = step env url ins cfg (Line d)"
    if "status cfg = Awaiting AwaitingInstruction"
    using one [OF that] by (simp add: run_terminal)
  let ?c1 = "step env url ins (await AwaitingDecision s tr) (Line ''n'')"
  have c1: "?c1 = await AwaitingInstruction s
      (tr @ [Prompt (prompt_of AwaitingDecision),
             Print (''Enter instructions for how to revise the summary, '' @
                    ''or type 'done' to exit:'')])"
    by (simp add: step_decision await_def on_decision_no yes_no_literals)
  then have "status ?c1 = Awaiting AwaitingInstruction" and "post_calls (trace ?c1) = post_calls tr"
    by (simp_all add: await_def)
  with one [of ?c1]
  have scenario: "status (review_and_post_summary env url s ins tr [Line ''n'', Line d])
        = Terminal Aborted"
    "post_calls (trace (review_and_post_summary env url s ins tr [Line ''n'', Line d]))
        = post_calls tr"
    by (simp_all add: review_and_post_summary_def)
  let ?r = "review_and_post_summary env url s ins tr inputs"
  let ?r' = "review_and_post_summary env url s ins tr (inputs @ [Line d])"
  have general: "status ?r' = Terminal Aborted \<and> post_calls (trace ?r') = post_calls (trace ?r) \<and>
      all_posts_refused env [] (trace ?r')"
    if ok: "all_posts_refused env [] tr" and st: "status ?r = Awaiting AwaitingInstruction"
  proof -
    have r': "?r' = step env url ins ?r (Line d)"
      by (simp add: review_and_post_summary_def run_append)
    with one [OF st] have a: "status ?r' = Terminal Aborted"
      and p: "post_calls (trace ?r') = post_calls (trace ?r)"
      by simp_all
    from run_extends [of env url ins "await AwaitingDecision s tr" "inputs @ [Line d]"]
    obtain added where "trace ?r' = trace (await AwaitingDecision s tr) @ added"
      and "status ?r' \<noteq> Terminal Published \<longrightarrow>
             all_posts_refused env (trace (await AwaitingDecision s tr)) added"
      unfolding review_and_post_summary_def by blast
    with a ok have "all_posts_refused env [] (trace ?r')"
      using all_posts_refused_append [of env "[]" "trace (await AwaitingDecision s tr)" added]
        all_posts_refused_append [of env "[]" tr "[Prompt (prompt_of AwaitingDecision)]"]
      by (simp add: await_def)
    with a p show ?thesis by blast
  qed
  from one stop scenario general show ?thesis by blast
qed

theorem done_aborts_witness:
  "lower (strip '' Done'') = ''done'' \<and>
   status (review_and_post_summary failing_publisher ''u'' (Some ''v1'') ''ins'' []
             [Line ''n'', Line '' Done''])
     = Terminal Aborted \<and>
   post_calls (trace (review_and_post_summary failing_publisher ''u'' (Some ''v1'') ''ins'' []
                        [Line ''n'', Line '' Done''])) = [] \<and>
   status (review_and_post_summary failing_publisher ''u'' (Some ''v1'') ''ins'' []
             ([Line ''n'', Line ''shorter'', Line ''y''] @ [Line '' Done'']))
     = Terminal Aborted \<and>
   all_posts_refused failing_publisher []
     (trace (review_and_post_summary failing_publisher ''u'' (Some ''v1'') ''ins'' []
               ([Line ''n'', Line ''shorter'', Line ''y''] @ [Line '' Done''])))"
proof -
  have h: "lower (strip '' Done'') = ''done''" by code_simp
  have st: "status (review_and_post_summary failing_publisher ''u'' (Some ''v1'') ''ins'' []
                      [Line ''n'', Line ''shorter'', Line ''y''])
              = Awaiting AwaitingInstruction"
    by code_simp
  have ok: "all_posts_refused failing_publisher [] []" by simp
  from h st ok
    done_aborts [OF h, of "await AwaitingInstruction (Some ''v1'') []" failing_publisher
      "''u''" "''ins''" "[]" "Some ''v1''" "[]" "[Line ''n'', Line ''shorter'', Line ''y'']"]
  show ?thesis by simp
qed

text \<open>
  C6 as stated fails: after a post that the tracker refused at the decision on a
  revision, \<^verbatim>\<open>done\<close> is entered while the loop waits for an instruction, and the run that
  ends in \<open>Aborted\<close> has made a publish call.
\<close>

theorem done_after_failed_publish:
  "status (review_and_post_summary failing_publisher ''u'' (Some ''v1'') ''ins'' []
             [Line ''n'', Line ''shorter'', Line ''y''])
     = Awaiting AwaitingInstruction \<and>
   status (review_and_post_summary failing_publisher ''u'' (Some ''v1'') ''ins'' []
             [Line ''n'', Line ''shorter'', Line ''y'', Line ''done''])
     = Terminal Aborted \<and>
   post_calls (trace (review_and_post_summary failing_publisher ''u'' (Some ''v1'') ''ins'' []
             [Line ''n'', Line ''shorter'', Line ''y'', Line ''done'']))
     = [(''u/comments'', Some ''v2'')]"
  by code_simp



text \<open>
  C8: the loop is defined for every finite sequence of inputs. When the last input is
  \<^verbatim>\<open>done\<close>, entered while the loop waits for an instruction, the function has returned
  (\<open>Aborted\<close>); when the last input is \<^verbatim>\<open>y\<close>, entered at a decision, and the post
  succeeds, the function has returned (\<open>Published\<close>); once it has returned it reads no
  further input.
\<close>

theorem loop_reaches_terminal:
  "(status (review_and_post_summary env url s ins tr ks) = Awaiting AwaitingInstruction \<and>
    lower (strip d) = ''done'' \<longrightarrow>
      status (review_and_post_summary env url s ins tr (ks @ [Line d])) = Terminal Aborted) \<and>
   ((status (review_and_post_summary env url s ins tr ks) = Awaiting AwaitingDecision \<or>
     status (review_and_post_summary env url s ins tr ks) = Awaiting AwaitingRevisedDecision) \<and>
    lower (strip y) = ''y'' \<and>
    requests_post env (trace (review_and_post_summary env url s ins tr ks))
      (url @ ''/comments'') (summary (review_and_post_summary env url s ins tr ks)) = Http_ok \<longrightarrow>
      status (review_and_post_summary env url s ins tr (ks @ [Line y])) = Terminal Published) \<and>
   (status (review_and_post_summary env url s ins tr ks) = Terminal t \<longrightarrow>
      review_and_post_summary env url s ins tr (ks @ later)
        = review_and_post_summary env url s ins tr ks)"
proof -
  let ?c = "review_and_post_summary env url s ins tr ks"
  have ext: "review_and_post_summary env url s ins tr (ks @ later1) = run env url ins ?c later1"
    for later1
    by (simp add: review_and_post_summary_def run_append)
  have a: "status (review_and_post_summary env url s ins tr (ks @ [Line d])) = Terminal Aborted"
    if "status ?c = Awaiting AwaitingInstruction" and "lower (strip d) = ''done''"
    using that by (simp add: ext step_instruction on_instruction_done finish_def)
  have b: "status (review_and_post_summary env url s ins tr (ks @ [Line y])) = Terminal Published"
    if "status ?c = Awaiting AwaitingDecision \<or> status ?c = Awaiting AwaitingRevisedDecision"
      and "lower (strip y) = ''y''"
      and "requests_post env (trace ?c) (url @ ''/comments'') (summary ?c) = Http_ok"
    using that
    by (auto simp: ext step_decision step_revised on_decision_yes on_revised_yes finish_def)
  have c: "review_and_post_summary env url s ins tr (ks @ later) = ?c"
    if "status ?c = Terminal t"
    using that by (simp add: ext run_terminal)
  from a b c show ?thesis by blast
qed

theorem loop_reaches_terminal_witness:
  "status (review_and_post_summary helpful ''u'' (Some ''v1'') ''ins'' []
             [Line ''maybe'', Line ''n'', Line ''shorter'']) = Awaiting AwaitingRevisedDecision \<and>
   status (review_and_post_summary helpful ''u'' (Some ''v1'') ''ins'' []
             ([Line ''maybe'', Line ''n'', Line ''shorter''] @ [Line ''y''])) = Terminal Published \<and>
   status (review_and_post_summary helpful ''u'' (Some ''v1'') ''ins'' []
             [Line ''maybe'', Line ''n'']) = Awaiting AwaitingInstruction \<and>
   status (review_and_post_summary helpful ''u'' (Some ''v1'') ''ins'' []
             ([Line ''maybe'', Line ''n''] @ [Line ''done''])) = Terminal Aborted"
proof -
  have r: "status (review_and_post_summary helpful ''u'' (Some ''v1'') ''ins'' []
             [Line ''maybe'', Line ''n'', Line ''shorter'']) = Awaiting AwaitingRevisedDecision"
    by code_simp
  have i: "status (review_and_post_summary helpful ''u'' (Some ''v1'') ''ins'' []
             [Line ''maybe'', Line ''n'']) = Awaiting AwaitingInstruction"
    by code_simp
  have p: "requests_post helpful h u b = Http_ok" for h u b
    by (simp add: helpful_def)
  from r i p yes_no_literals
    loop_reaches_terminal [of helpful "''u''" "Some ''v1''" "''ins''" "[]"
      "[Line ''maybe'', Line ''n'', Line ''shorter'']" "''done''" "''y''" Published "[]"]
    loop_reaches_terminal [of helpful "''u''" "Some ''v1''" "''ins''" "[]"
      "[Line ''maybe'', Line ''n'']" "''done''" "''y''" Published "[]"]
  show ?thesis by simp
qed

section \<open>One revision, then accept\<close>

lemma post_summary_completion_calls:
  "completion_calls (snd (post_summary env tr url s)) = completion_calls tr"
  by (simp add: post_summary_def Let_def split: http_result.splits)

text \<open>
  C5: for the inputs \<^verbatim>\<open>n\<close>, \<^verbatim>\<open>make it shorter\<close>, \<^verbatim>\<open>y\<close>, when the initial completion and the
  revision both yield a first choice, exactly two completion calls are made (the context,
  then the revision request, which ends with
  \<^verbatim>\<open>Please revise it as follows: make it shorter\<close>), and exactly one post is made, with
  the content of the second response.
\<close>

theorem one_revision_then_accept:
  assumes "issues_data \<noteq> []"
    and "build_context issues_data = Inr ctx"
    and "chat_completions_create env [Print ''Generating summary...''] MODEL_NAME ins ctx
           = Inr (c1 # cs1)"
    and "chat_completions_create env
           [Print ''Generating summary...'',
            Chat_completion MODEL_NAME ins ctx,
            Print ''\<newline>--- Generated Summary ---\<newline>'',
            Print (py_format c1),
            Print ''\<newline>------------------------\<newline>'',
            Prompt ''Post this summary to the initiative issue? (y/n): '',
            Print (''Enter instructions for how to revise the summary, '' @
                   ''or type 'done' to exit:''),
            Prompt ''> '']
           MODEL_NAME ins
           (''Here is the current summary:\<newline>'' @ py_format c1 @ ''\<newline>\<newline>'' @
            ''Please revise it as follows: make it shorter'')
           = Inr (c2 # cs2)"
  shows "completion_calls
           (snd (main_from_issues env url ins issues_data
                   [Line ''n'', Line ''make it shorter'', Line ''y'']))
           = [(ins, ctx),
              (ins, ''Here is the current summary:\<newline>'' @ py_format c1 @ ''\<newline>\<newline>'' @
                    ''Please revise it as follows: make it shorter'')] \<and>
         post_calls
           (snd (main_from_issues env url ins issues_data
                   [Line ''n'', Line ''make it shorter'', Line ''y'']))
           = [(url @ ''/comments'', c2)]"
proof -
  define h1 where "h1 = [Print ''Generating summary...'']"
  define t0 where "t0 = h1 @ [Chat_completion MODEL_NAME ins ctx] @
     [Print ''\<newline>--- Generated Summary ---\<newline>'',
      Print (py_format c1),
      Print ''\<newline>------------------------\<newline>'']"
  define k0 where "k0 = await AwaitingDecision c1 t0"
  define k1 where "k1 = step env url ins k0 (Line ''n'')"
  define k2 where "k2 = step env url ins k1 (Line ''make it shorter'')"
  define k3 where "k3 = step env url ins k2 (Line ''y'')"
  define usr where "usr = revision_prompt c1 ''make it shorter''"
  from assms(2,3) have asm: "assemble_summary env h1 issues_data ins
      = (Inr c1, h1 @ [Chat_completion MODEL_NAME ins ctx])"
    by (simp add: assemble_summary_def h1_def)
  have st0: "status k0 = Awaiting AwaitingDecision" and su0: "summary k0 = c1"
    and tr0: "trace k0 = t0 @ [Prompt ''Post this summary to the initiative issue? (y/n): '']"
    by (simp_all add: k0_def await_def)
  have "k1 = on_decision env url c1 (trace k0) (Line ''n'')"
    by (simp only: k1_def step_decision [OF st0] su0)
  then have st1: "status k1 = Awaiting AwaitingInstruction" and su1: "summary k1 = c1"
    and tr1: "trace k1 = trace k0 @
                [Print (''Enter instructions for how to revise the summary, '' @
                        ''or type 'done' to exit:''),
                 Prompt ''> '']"
    by (simp_all add: on_decision_no yes_no_literals await_def)
  have "trace k1 =
      [Print ''Generating summary...'',
       Chat_completion MODEL_NAME ins ctx,
       Print ''\<newline>--- Generated Summary ---\<newline>'',
       Print (py_format c1),
       Print ''\<newline>------------------------\<newline>'',
       Prompt ''Post this summary to the initiative issue? (y/n): '',
       Print (''Enter instructions for how to revise the summary, '' @
              ''or type 'done' to exit:''),
       Prompt ''> '']"
    by (simp add: tr1 tr0 t0_def h1_def)
  moreover have "usr = ''Here is the current summary:\<newline>'' @ py_format c1 @ ''\<newline>\<newline>'' @
        ''Please revise it as follows: make it shorter''"
    by (simp add: usr_def revision_prompt_def)
  ultimately have "chat_completions_create env (trace k1) MODEL_NAME ins usr = Inr (c2 # cs2)"
    using assms(4) by (simp only:)
  then have "on_instruction env ins c1 (trace k1) (Line ''make it shorter'')
      = await AwaitingRevisedDecision c2
          (trace k1 @ [Chat_completion MODEL_NAME ins usr,
                       Print ''\<newline>--- Revised Summary ---\<newline>'',
                       Print (py_format c2),
                       Print ''\<newline>----------------------\<newline>''])"
    unfolding usr_def by (rule on_instruction_choice [OF yes_no_literals(3)])
  moreover have "k2 = on_instruction env ins c1 (trace k1) (Line ''make it shorter'')"
    by (simp only: k2_def step_instruction [OF st1] su1)
  ultimately have st2: "status k2 = Awaiting AwaitingRevisedDecision" and su2: "summary k2 = c2"
    and tr2: "trace k2 = trace k1 @
                [Chat_completion MODEL_NAME ins usr,
                 Print ''\<newline>--- Revised Summary ---\<newline>'',
                 Print (py_format c2),
                 Print ''\<newline>----------------------\<newline>'',
                 Prompt ''Post this revised summary to the initiative issue? (y/n): '']"
    by (simp_all add: await_def)
  have calls2: "completion_calls (trace k2) = [(ins, ctx), (ins, usr)]"
    and posts2: "post_calls (trace k2) = []"
    by (simp_all add: tr2 tr1 tr0 t0_def h1_def)
  have "k3 = on_revised_decision env url c2 (trace k2) (Line ''y'')"
    by (simp only: k3_def step_revised [OF st2] su2)
  then have calls3: "completion_calls (trace k3) = [(ins, ctx), (ins, usr)]"
    and posts3: "post_calls (trace k3) = [(url @ ''/comments'', c2)]"
    and st3: "status k3 = Terminal Published \<or> status k3 = Awaiting AwaitingInstruction"
    by (simp_all add: on_revised_yes yes_no_literals finish_def await_def
          post_summary_calls post_summary_completion_calls calls2 posts2)
  have run: "review_and_post_summary env url c1 ins t0
      [Line ''n'', Line ''make it shorter'', Line ''y''] = k3"
    by (simp only: review_and_post_summary_def run.simps k3_def k2_def k1_def k0_def)
  have t0n: "h1 @ [Chat_completion MODEL_NAME ins ctx,
                   Print ''\<newline>--- Generated Summary ---\<newline>'',
                   Print (py_format c1),
                   Print ''\<newline>------------------------\<newline>''] = t0"
    by (simp add: t0_def)
  from assms(1) st3 have "main_from_issues env url ins issues_data
      [Line ''n'', Line ''make it shorter'', Line ''y''] = (status k3, trace k3)"
    unfolding main_from_issues_def h1_def [symmetric]
    by (auto simp: asm t0n run)
  with calls3 posts3 show ?thesis
    by (simp add: usr_def revision_prompt_def)
qed

theorem one_revision_then_accept_witness:
  "completion_calls
     (snd (main_from_issues helpful ''u'' ''ins'' [bug_a]
             [Line ''n'', Line ''make it shorter'', Line ''y'']))
     = [(''ins'', ''Issue: Bug A\<newline>- alice: fails on load\<newline>- unknown: '' @
                  replicate 200 (CHR ''x'') @ ''\<newline>\<newline>''),
        (''ins'', ''Here is the current summary:\<newline>long summary\<newline>\<newline>Please revise it as follows: make it shorter'')] \<and>
   post_calls
     (snd (main_from_issues helpful ''u'' ''ins'' [bug_a]
             [Line ''n'', Line ''make it shorter'', Line ''y'']))
     = [(''u/comments'', Some ''short summary'')]"
proof -
  let ?ctx = "''Issue: Bug A\<newline>- alice: fails on load\<newline>- unknown: '' @
              replicate 200 (CHR ''x'') @ ''\<newline>\<newline>''"
  have ne: "[bug_a] \<noteq> []" by simp
  have b: "build_context [bug_a] = Inr ?ctx"
    by (simp add: build_context_def bug_a_def get_login_def get_body_def)
  have c1: "chat_completions_create helpful [Print ''Generating summary...''] MODEL_NAME ''ins''
              ?ctx = Inr [Some ''long summary'']"
    by (simp add: helpful_def)
  have c2: "chat_completions_create helpful
           [Print ''Generating summary...'',
            Chat_completion MODEL_NAME ''ins'' ?ctx,
            Print ''\<newline>--- Generated Summary ---\<newline>'',
            Print (py_format (Some ''long summary'')),
            Print ''\<newline>------------------------\<newline>'',
            Prompt ''Post this summary to the initiative issue? (y/n): '',
            Print (''Enter instructions for how to revise the summary, '' @
                   ''or type 'done' to exit:''),
            Prompt ''> '']
           MODEL_NAME ''ins''
           (''Here is the current summary:\<newline>'' @ py_format (Some ''long summary'') @
            ''\<newline>\<newline>'' @ ''Please revise it as follows: make it shorter'')
           = Inr [Some ''short summary'']"
    by (simp add: helpful_def)
  from one_revision_then_accept [OF ne b c1 c2, of "''u''"]
  show ?thesis by simp
qed

end
